theory Spec2Isabelle
  imports Main "HOL-Library.Word" "HOL-Library.DAList" "HOL-Library.Multiset"
begin

section \<open>Data model of global.go\<close>

text \<open>
  Go's \<open>int64\<close> and \<open>int32\<close> are words: \<open>+\<close> wraps around, \<open>sint\<close> reads the
  signed value. A \<open>*RateLimitReq\<close> is an address into a store of request objects, so
  that the in-place updates of the two pipelines and their aliasing are visible.
\<close>

type_synonym int64 = "64 word"
type_synonym int32 = "32 word"
type_synonym addr = nat
type_synonym error = string

text \<open>
  Modelled from the spec: the declaration of \<open>RateLimitReq\<close> and its method \<open>HashKey\<close>
  are not in global.go. The spec (section 3) describes a request as a limit name and
  unique labels, from which the string \<open>HashKey\<close> is derived, a hit increment count and
  a behavior flag set. global.go itself reads and writes only \<open>Hits\<close> and \<open>Behavior\<close>
  and calls \<open>HashKey()\<close>.
\<close>

record RateLimitReq =
  Name :: string
  UniqueKey :: string
  Hits :: int64
  Behavior :: int32

definition HashKey :: "RateLimitReq \<Rightarrow> string" where
  "HashKey r = Name r @ ''_'' @ UniqueKey r"

text \<open>
  Modelled from the spec: \<open>RateLimitResp\<close>, the status produced by local evaluation, is
  opaque to global.go (spec section 3: current count, remaining, reset time, over-limit
  flag) and is carried verbatim into the broadcast message.
\<close>

record RateLimitResp =
  OverLimit :: bool
  CurrentLimit :: int64
  Remaining :: int64
  ResetTime :: int64

record UpdatePeerGlobal =
  Key :: string
  Status :: RateLimitResp

record PeerClient =
  host :: string
  isOwner :: bool

record BehaviorConfig =
  GlobalSyncWait :: int
  GlobalBatchLimit :: int
  GlobalTimeout :: int

record ServerStats =
  AsyncGlobalsCount :: int64
  BroadcastDuration :: int64

record GetPeerRateLimitsReq =
  Requests :: "addr list"

text \<open>The local type \<open>pair\<close> of \<open>sendHits\<close>.\<close>

record pair =
  client :: PeerClient
  req :: GetPeerRateLimitsReq

text \<open>
  What leaves the node: the remote calls issued, with the message as it is when the call
  is made (the requests behind the pointers are read at that moment), and the lines
  written to the error log.
\<close>

datatype rpc =
  GetPeerRateLimits PeerClient "RateLimitReq list"
| UpdatePeerGlobals PeerClient "UpdatePeerGlobal list"

datatype log_entry =
  ErrGetPeer error string
| ErrSendHits error string
| ErrGetRateLimit error string
| ErrSendUpdates error string

text \<open>
  The collaborators and the runtime, as they answer during one iteration of a loop:
  the peer picker, local evaluation, the peer list, the outcome of each remote call
  (\<open>None\<close> is a nil error), the clock, and the order in which \<open>range\<close> visits the
  entries of each map (Go leaves it unspecified; see \<open>range_order\<close>).
\<close>

record env =
  GetPeer :: "string \<Rightarrow> error + PeerClient"
  getRateLimit :: "RateLimitReq \<Rightarrow> error + RateLimitResp"
  GetPeerList :: "PeerClient list"
  callGetPeerRateLimits :: "PeerClient \<Rightarrow> RateLimitReq list \<Rightarrow> error option"
  callUpdatePeerGlobals :: "PeerClient \<Rightarrow> UpdatePeerGlobal list \<Rightarrow> error option"
  now :: int
  elapsed :: nat
  range_batch :: "nat list"
  range_peers :: "nat list"

text \<open>
  The memory and the outputs shared by the two loops and by \<open>Stats\<close>: the request
  objects, \<open>gm.stats\<close>, the requests handed to local evaluation (each as it was at the
  call), the remote calls issued and the error log, all oldest first.
\<close>

record world =
  heap :: "addr \<Rightarrow> RateLimitReq"
  stats :: ServerStats
  evals :: "RateLimitReq list"
  rpcs :: "rpc list"
  logs :: "log_entry list"

section \<open>Go's range over a map\<close>

text \<open>
  \<open>range\<close> over a map visits every entry once, in an order the runtime chooses. The
  choice is a list of picks: each pick selects one of the entries not yet visited.
  When the picks run out the remaining entries are visited as they stand.
\<close>

fun range_order :: "nat list \<Rightarrow> 'a list \<Rightarrow> 'a list" where
  "range_order ns [] = []"
| "range_order [] (x # xs) = x # xs"
| "range_order (n # ns) (x # xs) =
     (let i = n mod length (x # xs)
      in (x # xs) ! i # range_order ns (take i (x # xs) @ drop (Suc i) (x # xs)))"

section \<open>Stats\<close>

text \<open>
  \<open>Stats(clear)\<close>: the two loads build the returned value; the deferred function runs
  after that and stores zero in both counters.
\<close>

definition Stats :: "bool \<Rightarrow> world \<Rightarrow> ServerStats \<times> world" where
  "Stats clear w =
     (let ret = \<lparr>AsyncGlobalsCount = AsyncGlobalsCount (stats w),
                 BroadcastDuration = BroadcastDuration (stats w)\<rparr>
      in (ret, if clear
               then w\<lparr>stats := (stats w)\<lparr>AsyncGlobalsCount := 0, BroadcastDuration := 0\<rparr>\<rparr>
               else w))"

section \<open>The debounce timer\<close>

text \<open>
  Modelled from the spec: \<open>NewInterval\<close>, \<open>Next\<close> and the channel \<open>C\<close> of the interval
  are not in global.go. Spec section 4.1: start arms the timer to fire once after the
  configured wait if it is not already armed; while armed it is a no-op and the
  scheduled fire time is not extended; after firing the timer is dormant until it is
  armed again. Section 5 of the spec takes the firing of the timer as one of the three
  events a loop waits for, so the firing and the loop's receive from \<open>C\<close> are one event
  here.
\<close>

record Interval =
  period :: int
  fire_at :: "int option"

definition NewInterval :: "int \<Rightarrow> Interval" where
  "NewInterval d = \<lparr>period = d, fire_at = None\<rparr>"

definition Interval_Next :: "int \<Rightarrow> Interval \<Rightarrow> Interval" where
  "Interval_Next t iv =
     (case fire_at iv of
        None \<Rightarrow> iv\<lparr>fire_at := Some (t + period iv)\<rparr>
      | Some d \<Rightarrow> iv)"

definition Interval_fired :: "Interval \<Rightarrow> Interval" where
  "Interval_fired iv = iv\<lparr>fire_at := None\<rparr>"

section \<open>The hit aggregation pipeline\<close>

text \<open>
  \<open>sendHits\<close>, first loop: each request of the batch is assigned to its owning peer; a
  request whose peer cannot be resolved is logged and skipped.
\<close>

definition assign_peer ::
  "env \<Rightarrow> (addr \<Rightarrow> RateLimitReq) \<Rightarrow> addr \<Rightarrow>
   (string, pair) alist \<times> log_entry list \<Rightarrow> (string, pair) alist \<times> log_entry list" where
  "assign_peer e h r = (\<lambda>(peerRequests, lg).
     (case GetPeer e (HashKey (h r)) of
        Inl err \<Rightarrow> (peerRequests, lg @ [ErrGetPeer err (HashKey (h r))])
      | Inr peer \<Rightarrow>
          (case DAList.lookup peerRequests (host peer) of
             Some p \<Rightarrow>
               (DAList.update (host peer)
                  (p\<lparr>req := (req p)\<lparr>Requests := Requests (req p) @ [r]\<rparr>\<rparr>) peerRequests, lg)
           | None \<Rightarrow>
               (DAList.update (host peer)
                  \<lparr>client = peer, req = \<lparr>Requests = [r]\<rparr>\<rparr> peerRequests, lg))))"

text \<open>\<open>sendHits\<close>, second loop: one remote call for each destination.\<close>

definition send_pair :: "env \<Rightarrow> pair \<Rightarrow> world \<Rightarrow> world" where
  "send_pair e p w =
     (let msg = map (heap w) (Requests (req p));
          w' = w\<lparr>rpcs := rpcs w @ [GetPeerRateLimits (client p) msg]\<rparr>
      in case callGetPeerRateLimits e (client p) msg of
           Some err \<Rightarrow> w'\<lparr>logs := logs w' @ [ErrSendHits err (host (client p))]\<rparr>
         | None \<Rightarrow> w')"

definition sendHits :: "env \<Rightarrow> (string, addr) alist \<Rightarrow> world \<Rightarrow> world" where
  "sendHits e hits w =
     (let (peerRequests, lg) =
            fold (assign_peer e (heap w))
              (range_order (range_batch e) (map snd (DAList.impl_of hits)))
              (DAList.empty, logs w);
          w1 = fold (send_pair e)
                 (range_order (range_peers e) (map snd (DAList.impl_of peerRequests)))
                 (w\<lparr>logs := lg\<rparr>)
      in w1\<lparr>stats := (stats w1)\<lparr>AsyncGlobalsCount :=
              AsyncGlobalsCount (stats w1) + of_nat (length (DAList.impl_of hits))\<rparr>\<rparr>)"

text \<open>
  The events a loop selects on: a request received from its queue, the interval's
  channel, and the done channel.
\<close>

datatype event = Recv addr | IntervalC | Done

record async_loop =
  hits :: "(string, addr) alist"
  hits_interval :: Interval

text \<open>Lines 66 to 73: the received request is merged into the batch by its key.\<close>

definition aggregate ::
  "addr \<Rightarrow> (string, addr) alist \<times> (addr \<Rightarrow> RateLimitReq) \<Rightarrow>
   (string, addr) alist \<times> (addr \<Rightarrow> RateLimitReq)" where
  "aggregate r = (\<lambda>(hs, h).
     (let key = HashKey (h r)
      in case DAList.lookup hs key of
           Some a \<Rightarrow> (hs, h(a := (h a)\<lparr>Hits := Hits (h a) + Hits (h r)\<rparr>))
         | None \<Rightarrow> (DAList.update key r hs, h)))"

text \<open>
  One run of the function that \<open>runAsyncHits\<close> hands to \<open>Until\<close>: the result is the
  value it returns (\<open>False\<close> ends the loop) and the state it leaves.
\<close>

definition runAsyncHits_iter ::
  "BehaviorConfig \<Rightarrow> env \<Rightarrow> event \<Rightarrow> async_loop \<times> world \<Rightarrow> bool \<times> async_loop \<times> world" where
  "runAsyncHits_iter conf e ev = (\<lambda>(l, w).
     (case ev of
        Recv r \<Rightarrow>
          (let (hs, h) = aggregate r (hits l, heap w);
               w' = w\<lparr>heap := h\<rparr>
           in if int (length (DAList.impl_of hs)) = GlobalBatchLimit conf
              then (True, l\<lparr>hits := DAList.empty\<rparr>, sendHits e hs w')
              else if length (DAList.impl_of hs) = 1
              then (True, l\<lparr>hits := hs,
                             hits_interval := Interval_Next (now e) (hits_interval l)\<rparr>, w')
              else (True, l\<lparr>hits := hs\<rparr>, w'))
      | IntervalC \<Rightarrow>
          (let l' = l\<lparr>hits_interval := Interval_fired (hits_interval l)\<rparr>
           in if length (DAList.impl_of (hits l)) \<noteq> 0
              then (True, l'\<lparr>hits := DAList.empty\<rparr>, sendHits e (hits l) w)
              else (True, l', w))
      | Done \<Rightarrow> (False, l, w)))"

text \<open>
  \<open>wg.Until\<close> calls the function again and again until it returns false; the list is
  what the successive selects receive, each with the environment of that moment.
\<close>

fun Until ::
  "('e \<Rightarrow> 's \<Rightarrow> bool \<times> 's) \<Rightarrow> 'e list \<Rightarrow> 's \<Rightarrow> 's" where
  "Until f [] s = s"
| "Until f (x # xs) s = (case f x s of (True, s') \<Rightarrow> Until f xs s' | (False, s') \<Rightarrow> s')"

definition runAsyncHits ::
  "BehaviorConfig \<Rightarrow> (env \<times> event) list \<Rightarrow> world \<Rightarrow> async_loop \<times> world" where
  "runAsyncHits conf evs w =
     Until (\<lambda>(e, ev). runAsyncHits_iter conf e ev) evs
       (\<lparr>hits = DAList.empty, hits_interval = NewInterval (GlobalSyncWait conf)\<rparr>, w)"

section \<open>The status broadcast pipeline\<close>

text \<open>
  \<open>updatePeers\<close>, first loop: the request is cleared in place, evaluated locally, and
  its status appended to the message unless the evaluation failed.
\<close>

definition clear_and_eval ::
  "env \<Rightarrow> addr \<Rightarrow> UpdatePeerGlobal list \<times> world \<Rightarrow> UpdatePeerGlobal list \<times> world" where
  "clear_and_eval e rl = (\<lambda>(globals, w).
     (let w1 = w\<lparr>heap := (heap w)(rl := (heap w rl)\<lparr>Behavior := 0\<rparr>)\<rparr>;
          w2 = w1\<lparr>heap := (heap w1)(rl := (heap w1 rl)\<lparr>Hits := 0\<rparr>)\<rparr>;
          w3 = w2\<lparr>evals := evals w2 @ [heap w2 rl]\<rparr>
      in case getRateLimit e (heap w2 rl) of
           Inl err \<Rightarrow> (globals, w3\<lparr>logs := logs w3 @ [ErrGetRateLimit err (HashKey (heap w3 rl))]\<rparr>)
         | Inr status \<Rightarrow>
             (globals @ [\<lparr>Key = HashKey (heap w3 rl), Status = status\<rparr>], w3)))"

text \<open>\<open>updatePeers\<close>, second loop: the message goes to every peer that is not the owner.\<close>

definition update_peer :: "env \<Rightarrow> UpdatePeerGlobal list \<Rightarrow> PeerClient \<Rightarrow> world \<Rightarrow> world" where
  "update_peer e globals peer w =
     (if isOwner peer then w
      else (let w' = w\<lparr>rpcs := rpcs w @ [UpdatePeerGlobals peer globals]\<rparr>
            in case callUpdatePeerGlobals e peer globals of
                 Some err \<Rightarrow> w'\<lparr>logs := logs w' @ [ErrSendUpdates err (host peer)]\<rparr>
               | None \<Rightarrow> w'))"

text \<open>
  \<open>int64(time.Now().Sub(start))\<close>: the clock is monotonic, so the difference is the
  time that passed, and \<open>Sub\<close> saturates at the largest duration.
\<close>

definition duration_of :: "nat \<Rightarrow> int64" where
  "duration_of n = of_nat (min n (2 ^ 63 - 1))"

definition updatePeers :: "env \<Rightarrow> (string, addr) alist \<Rightarrow> world \<Rightarrow> world" where
  "updatePeers e updates w =
     (let (globals, w1) =
            fold (clear_and_eval e)
              (range_order (range_batch e) (map snd (DAList.impl_of updates))) ([], w);
          w2 = fold (update_peer e globals) (GetPeerList e) w1;
          duration = duration_of (elapsed e)
      in if sint (BroadcastDuration (stats w2)) < sint duration
         then w2\<lparr>stats := (stats w2)\<lparr>BroadcastDuration := duration\<rparr>\<rparr>
         else w2)"

record broadcast_loop =
  updates :: "(string, addr) alist"
  updates_interval :: Interval

definition runBroadcasts_iter ::
  "BehaviorConfig \<Rightarrow> env \<Rightarrow> event \<Rightarrow> broadcast_loop \<times> world \<Rightarrow>
   bool \<times> broadcast_loop \<times> world" where
  "runBroadcasts_iter conf e ev = (\<lambda>(l, w).
     (case ev of
        Recv r \<Rightarrow>
          (let us = DAList.update (HashKey (heap w r)) r (updates l)
           in if int (length (DAList.impl_of us)) = GlobalBatchLimit conf
              then (True, l\<lparr>updates := DAList.empty\<rparr>, updatePeers e us w)
              else if length (DAList.impl_of us) = 1
              then (True, l\<lparr>updates := us,
                             updates_interval := Interval_Next (now e) (updates_interval l)\<rparr>, w)
              else (True, l\<lparr>updates := us\<rparr>, w))
      | IntervalC \<Rightarrow>
          (let l' = l\<lparr>updates_interval := Interval_fired (updates_interval l)\<rparr>
           in if length (DAList.impl_of (updates l)) \<noteq> 0
              then (True, l'\<lparr>updates := DAList.empty\<rparr>, updatePeers e (updates l) w)
              else (True, l', w))
      | Done \<Rightarrow> (False, l, w)))"

definition runBroadcasts ::
  "BehaviorConfig \<Rightarrow> (env \<times> event) list \<Rightarrow> world \<Rightarrow> broadcast_loop \<times> world" where
  "runBroadcasts conf evs w =
     Until (\<lambda>(e, ev). runBroadcasts_iter conf e ev) evs
       (\<lparr>updates = DAList.empty, updates_interval = NewInterval (GlobalSyncWait conf)\<rparr>, w)"

section \<open>Notions used in the statements\<close>

text \<open>A request after lines 186 and 187 of \<open>updatePeers\<close> have run on it.\<close>

definition cleared :: "RateLimitReq \<Rightarrow> RateLimitReq" where
  "cleared r = r\<lparr>Behavior := 0, Hits := 0\<rparr>"

text \<open>
  What one request of a broadcast batch contributes to the message: its key with the
  status of the cleared request, or nothing when the evaluation fails.
\<close>

definition entry_of :: "env \<Rightarrow> RateLimitReq \<Rightarrow> UpdatePeerGlobal list" where
  "entry_of e r =
     (case getRateLimit e (cleared r) of
        Inl err \<Rightarrow> []
      | Inr st \<Rightarrow> [\<lparr>Key = HashKey r, Status = st\<rparr>])"

section \<open>Facts about the range order and the batch\<close>

lemma mset_pick:
  "i < length ys \<Longrightarrow> add_mset (ys ! i) (mset (take i ys @ drop (Suc i) ys)) = mset ys"
proof -
  assume "i < length ys"
  then have "ys = take i ys @ ys ! i # drop (Suc i) ys"
    by (rule id_take_nth_drop)
  then have "mset ys = mset (take i ys @ ys ! i # drop (Suc i) ys)"
    by simp
  then show ?thesis by simp
qed

text \<open>Whatever the picks, \<open>range\<close> visits every entry exactly once.\<close>

lemma mset_range_order: "mset (range_order ns xs) = mset xs"
proof (induction ns xs rule: range_order.induct)
  case (3 n ns x xs)
  have "n mod length (x # xs) < length (x # xs)" by simp
  from mset_pick [OF this] 3 show ?case by (simp add: Let_def)
qed simp_all

lemma set_range_order: "set (range_order ns xs) = set xs"
  by (metis mset_range_order set_mset_mset)

lemma length_range_order: "length (range_order ns xs) = length xs"
  by (metis mset_range_order size_mset)

text \<open>\<open>len\<close> of a batch is the number of its distinct keys.\<close>

lemma length_impl_of_card: "length (DAList.impl_of al) = card (dom (DAList.lookup al))"
proof -
  have "dom (DAList.lookup al) = set (map fst (DAList.impl_of al))"
    by (simp add: DAList.lookup.rep_eq dom_map_of_conv_image_fst)
  then show ?thesis
    by (metis DAList.impl_of_distinct distinct_card length_map)
qed

section \<open>Facts about sendHits\<close>

lemma stats_send_pair: "stats (send_pair e p w) = stats w"
  by (simp add: send_pair_def Let_def split: option.splits)

lemma stats_fold_send_pair: "stats (fold (send_pair e) ps w) = stats w"
  by (induction ps arbitrary: w) (simp_all add: stats_send_pair)

lemma heap_send_pair: "heap (send_pair e p w) = heap w"
  by (simp add: send_pair_def Let_def split: option.splits)

lemma heap_fold_send_pair: "heap (fold (send_pair e) ps w) = heap w"
  by (induction ps arbitrary: w) (simp_all add: heap_send_pair)

section \<open>Facts about updatePeers\<close>

lemma HashKey_cleared: "HashKey (r\<lparr>Behavior := b, Hits := h\<rparr>) = HashKey r"
  by (simp add: HashKey_def)

lemma clear_and_eval_fst:
  "fst (clear_and_eval e a (gs, w)) = gs @ entry_of e (heap w a)"
  by (simp add: clear_and_eval_def entry_of_def cleared_def Let_def HashKey_def split: sum.splits)

lemma clear_and_eval_heap:
  "heap (snd (clear_and_eval e a (gs, w))) = (heap w)(a := cleared (heap w a))"
  by (simp add: clear_and_eval_def cleared_def Let_def split: sum.splits)

lemma clear_and_eval_evals:
  "evals (snd (clear_and_eval e a (gs, w))) = evals w @ [cleared (heap w a)]"
  by (simp add: clear_and_eval_def cleared_def Let_def split: sum.splits)

lemma clear_and_eval_stats:
  "stats (snd (clear_and_eval e a (gs, w))) = stats w"
  "rpcs (snd (clear_and_eval e a (gs, w))) = rpcs w"
  by (simp_all add: clear_and_eval_def Let_def split: sum.splits)

lemma cleared_idem: "cleared (cleared r) = cleared r"
  by (simp add: cleared_def)

lemma fold_clear_and_eval:
  "fold (clear_and_eval e) as (gs, w) = (gs', w') \<Longrightarrow>
     gs' = gs @ concat (map (\<lambda>a. entry_of e (heap w a)) as)
   \<and> heap w' = (\<lambda>a. if a \<in> set as then cleared (heap w a) else heap w a)
   \<and> evals w' = evals w @ map (\<lambda>a. cleared (heap w a)) as
   \<and> stats w' = stats w \<and> rpcs w' = rpcs w"
proof (induction as arbitrary: gs w)
  case Nil
  then show ?case by auto
next
  case (Cons a as)
  obtain g1 w1 where s: "clear_and_eval e a (gs, w) = (g1, w1)" by force
  have g1: "g1 = gs @ entry_of e (heap w a)" using clear_and_eval_fst [of e a gs w] s by simp
  have h1: "heap w1 = (heap w)(a := cleared (heap w a))"
    using clear_and_eval_heap [of e a gs w] s by simp
  have e1: "evals w1 = evals w @ [cleared (heap w a)]"
    using clear_and_eval_evals [of e a gs w] s by simp
  have s1: "stats w1 = stats w" "rpcs w1 = rpcs w"
    using clear_and_eval_stats [of e a gs w] s by simp_all
  from Cons.prems s have "fold (clear_and_eval e) as (g1, w1) = (gs', w')" by simp
  from Cons.IH [OF this] have ih:
    "gs' = g1 @ concat (map (\<lambda>a. entry_of e (heap w1 a)) as)"
    "heap w' = (\<lambda>a. if a \<in> set as then cleared (heap w1 a) else heap w1 a)"
    "evals w' = evals w1 @ map (\<lambda>a. cleared (heap w1 a)) as"
    "stats w' = stats w1" "rpcs w' = rpcs w1" by simp_all
  have c: "\<And>b. cleared (heap w1 b) = cleared (heap w b)"
    by (simp add: h1 cleared_idem)
  have en: "\<And>b. entry_of e (heap w1 b) = entry_of e (heap w b)"
    by (auto simp: entry_of_def h1 HashKey_def cleared_def split: sum.splits)
  have A: "gs' = gs @ concat (map (\<lambda>a. entry_of e (heap w a)) (a # as))"
    using ih(1) g1 by (simp add: en)
  have B: "heap w' = (\<lambda>b. if b \<in> set (a # as) then cleared (heap w b) else heap w b)"
    unfolding ih(2) c by (rule ext) (simp add: h1)
  have C: "evals w' = evals w @ map (\<lambda>a. cleared (heap w a)) (a # as)"
    using ih(3) e1 by (simp add: c)
  show ?case
    using A B C ih(4,5) s1 by simp
qed


lemma update_peer_frame:
  "heap (update_peer e gs p w) = heap w"
  "stats (update_peer e gs p w) = stats w"
  "evals (update_peer e gs p w) = evals w"
  "rpcs (update_peer e gs p w) = rpcs w @ (if isOwner p then [] else [UpdatePeerGlobals p gs])"
  by (simp_all add: update_peer_def Let_def split: option.splits)

lemma fold_update_peer:
  "heap (fold (update_peer e gs) ps w) = heap w"
  "stats (fold (update_peer e gs) ps w) = stats w"
  "evals (fold (update_peer e gs) ps w) = evals w"
  "rpcs (fold (update_peer e gs) ps w) =
     rpcs w @ map (\<lambda>p. UpdatePeerGlobals p gs) (filter (\<lambda>p. \<not> isOwner p) ps)"
  by (induction ps arbitrary: w) (simp_all add: update_peer_frame)

lemma sint_of_nat64:
  assumes "k < 2 ^ 63"
  shows "sint (of_nat k :: 64 word) = int k"
proof -
  have "sint (word_of_int (int k) :: 64 word) = (int k + 2 ^ 63) mod 2 ^ 64 - 2 ^ 63"
    unfolding int_word_sint by simp
  also have "(int k + 2 ^ 63) mod 2 ^ 64 = int k + 2 ^ 63"
    using assms by (intro mod_pos_pos_trivial) simp_all
  finally show ?thesis by simp
qed

lemma sint_duration_of: "sint (duration_of n) = int (min n (2 ^ 63 - 1))"
  unfolding duration_of_def by (rule sint_of_nat64) simp

lemma updatePeers_parts:
  "heap (updatePeers e us w) =
     (\<lambda>a. if a \<in> snd ` set (DAList.impl_of us) then cleared (heap w a) else heap w a)"
  "evals (updatePeers e us w) =
     evals w @ map (\<lambda>a. cleared (heap w a))
                 (range_order (range_batch e) (map snd (DAList.impl_of us)))"
  "rpcs (updatePeers e us w) =
     rpcs w @ map (\<lambda>p. UpdatePeerGlobals p
                     (concat (map (\<lambda>a. entry_of e (heap w a))
                        (range_order (range_batch e) (map snd (DAList.impl_of us))))))
                (filter (\<lambda>p. \<not> isOwner p) (GetPeerList e))"
  "AsyncGlobalsCount (stats (updatePeers e us w)) = AsyncGlobalsCount (stats w)"
  "BroadcastDuration (stats (updatePeers e us w)) =
     (if sint (BroadcastDuration (stats w)) < sint (duration_of (elapsed e))
      then duration_of (elapsed e) else BroadcastDuration (stats w))"
proof -
  obtain gs w1 where f: "fold (clear_and_eval e)
      (range_order (range_batch e) (map snd (DAList.impl_of us))) ([], w) = (gs, w1)"
    by force
  note p = fold_clear_and_eval [OF f]
  have u: "updatePeers e us w =
    (let w2 = fold (update_peer e gs) (GetPeerList e) w1;
         duration = duration_of (elapsed e)
      in if sint (BroadcastDuration (stats w2)) < sint duration
         then w2\<lparr>stats := (stats w2)\<lparr>BroadcastDuration := duration\<rparr>\<rparr>
         else w2)"
    by (simp add: updatePeers_def f)
  show "heap (updatePeers e us w) =
     (\<lambda>a. if a \<in> snd ` set (DAList.impl_of us) then cleared (heap w a) else heap w a)"
    using p by (simp add: u Let_def fold_update_peer set_range_order)
  show "evals (updatePeers e us w) =
     evals w @ map (\<lambda>a. cleared (heap w a))
                 (range_order (range_batch e) (map snd (DAList.impl_of us)))"
    using p by (simp add: u Let_def fold_update_peer)
  show "rpcs (updatePeers e us w) =
     rpcs w @ map (\<lambda>p. UpdatePeerGlobals p
                     (concat (map (\<lambda>a. entry_of e (heap w a))
                        (range_order (range_batch e) (map snd (DAList.impl_of us))))))
                (filter (\<lambda>p. \<not> isOwner p) (GetPeerList e))"
    using p by (simp add: u Let_def fold_update_peer)
  show "AsyncGlobalsCount (stats (updatePeers e us w)) = AsyncGlobalsCount (stats w)"
    using p by (simp add: u Let_def fold_update_peer)
  show "BroadcastDuration (stats (updatePeers e us w)) =
     (if sint (BroadcastDuration (stats w)) < sint (duration_of (elapsed e))
      then duration_of (elapsed e) else BroadcastDuration (stats w))"
    using p by (simp add: u Let_def fold_update_peer)
qed

lemma in_update_self: "(k, v) \<in> set (DAList.impl_of (DAList.update k v al))"
proof -
  have "map_of (DAList.impl_of (DAList.update k v al)) k = Some v"
    by (simp add: DAList.update.rep_eq update_conv')
  then show ?thesis by (rule map_of_SomeD)
qed

lemma in_entry_of:
  "g \<in> set (entry_of e r) \<longleftrightarrow>
     (\<exists>st. getRateLimit e (r\<lparr>Behavior := 0, Hits := 0\<rparr>) = Inr st
           \<and> g = \<lparr>Key = HashKey r, Status = st\<rparr>)"
  by (cases "getRateLimit e (r\<lparr>Behavior := 0, Hits := 0\<rparr>)")
     (auto simp: entry_of_def cleared_def)

lemma Max_insert_max:
  "finite A \<Longrightarrow> Max (insert (max a b) A) = Max (insert (a::int) (insert b A))"
  by (cases "A = {}") (simp_all add: max.assoc)

lemma fold_updatePeers_duration:
  "sint (BroadcastDuration (stats (fold (\<lambda>(e, us). updatePeers e us) fl w))) =
     Max (insert (sint (BroadcastDuration (stats w)))
            ((\<lambda>(e, us). sint (duration_of (elapsed e))) ` set fl))"
proof (induction fl arbitrary: w)
  case Nil
  then show ?case by simp
next
  case (Cons x fl)
  obtain e us where x: "x = (e, us)" by force
  let ?d = "\<lambda>(e, us). sint (duration_of (elapsed e))"
  let ?w1 = "updatePeers e us w"
  have s1: "sint (BroadcastDuration (stats ?w1)) =
      max (sint (BroadcastDuration (stats w))) (sint (duration_of (elapsed e)))"
    by (simp add: updatePeers_parts(5))
  have "sint (BroadcastDuration (stats (fold (\<lambda>(e, us). updatePeers e us) (x # fl) w))) =
      Max (insert (sint (BroadcastDuration (stats ?w1))) (?d ` set fl))"
    using Cons.IH [of ?w1] by (simp add: x)
  also have "\<dots> = Max (insert (sint (BroadcastDuration (stats w)))
            (insert (sint (duration_of (elapsed e))) (?d ` set fl)))"
    unfolding s1 by (rule Max_insert_max) simp
  finally show ?case by (simp add: x)
qed

section \<open>Stats accounting\<close>

text \<open>
  C7. \<open>Stats(true)\<close> returns the two counters as they were before the call and leaves
  both at zero, so that a following \<open>Stats(false)\<close> returns zeros; \<open>Stats(false)\<close>
  returns the counters and leaves the whole state as it was.
\<close>

theorem Stats_clear_returns_then_resets:
  "fst (Stats True w) = stats w
   \<and> stats (snd (Stats True w)) = \<lparr>AsyncGlobalsCount = 0, BroadcastDuration = 0\<rparr>
   \<and> fst (Stats False (snd (Stats True w))) = \<lparr>AsyncGlobalsCount = 0, BroadcastDuration = 0\<rparr>
   \<and> fst (Stats False w) = stats w
   \<and> snd (Stats False w) = w"
  by (simp add: Stats_def)

text \<open>
  C5. A flush of the hit batch adds the number of distinct keys of the batch to the
  aggregated-hits counter (in \<open>int64\<close> arithmetic), whatever the peer picker answers
  for each key and whether each remote call succeeds or fails: the environment \<open>e\<close>,
  which holds all those answers, is arbitrary.
\<close>

theorem sendHits_counts_batch:
  "AsyncGlobalsCount (stats (sendHits e hs w)) =
     AsyncGlobalsCount (stats w) + of_nat (card (dom (DAList.lookup hs)))"
  by (simp add: sendHits_def Let_def split_beta stats_fold_send_pair length_impl_of_card)

section \<open>The broadcast flush\<close>

text \<open>
  C4. In every broadcast flush each request of the batch is handed to local evaluation
  exactly once, and what is handed over is the request with its hit count and its
  behavior flags set to zero; every entry of the message that the flush sends was
  built from such a cleared request: its key is the request's key and its status is
  what the evaluation of the cleared request returned.
\<close>

theorem updatePeers_evaluates_cleared_requests:
  "\<exists>new msg.
     evals (updatePeers e us w) = evals w @ new
     \<and> set new = (\<lambda>a. (heap w a)\<lparr>Behavior := 0, Hits := 0\<rparr>) ` snd ` set (DAList.impl_of us)
     \<and> length new = length (DAList.impl_of us)
     \<and> (\<forall>r \<in> set new. Hits r = 0 \<and> Behavior r = 0)
     \<and> rpcs (updatePeers e us w) =
           rpcs w @ map (\<lambda>p. UpdatePeerGlobals p msg)
                      (filter (\<lambda>p. \<not> isOwner p) (GetPeerList e))
     \<and> (\<forall>g \<in> set msg. \<exists>r \<in> set new.
           Key g = HashKey r \<and> getRateLimit e r = Inr (Status g))"
proof -
  let ?as = "range_order (range_batch e) (map snd (DAList.impl_of us))"
  let ?new = "map (\<lambda>a. cleared (heap w a)) ?as"
  let ?msg = "concat (map (\<lambda>a. entry_of e (heap w a)) ?as)"
  have 1: "evals (updatePeers e us w) = evals w @ ?new"
    by (rule updatePeers_parts(2))
  have 2: "set ?new = (\<lambda>a. (heap w a)\<lparr>Behavior := 0, Hits := 0\<rparr>) ` snd ` set (DAList.impl_of us)"
    by (auto simp: set_range_order cleared_def)
  have 3: "length ?new = length (DAList.impl_of us)"
    by (simp add: length_range_order)
  have 4: "\<forall>r \<in> set ?new. Hits r = 0 \<and> Behavior r = 0"
    by (auto simp: cleared_def)
  have 5: "rpcs (updatePeers e us w) =
           rpcs w @ map (\<lambda>p. UpdatePeerGlobals p ?msg)
                      (filter (\<lambda>p. \<not> isOwner p) (GetPeerList e))"
    by (rule updatePeers_parts(3))
  have 6: "\<forall>g \<in> set ?msg. \<exists>r \<in> set ?new.
           Key g = HashKey r \<and> getRateLimit e r = Inr (Status g)"
    by (fastforce simp: in_entry_of cleared_def HashKey_def)
  from 1 2 3 4 5 6 show ?thesis by blast
qed

text \<open>
  C6. A broadcast flush issues exactly one \<open>UpdatePeerGlobals\<close> call for every peer of
  the current peer list whose owner flag is false, in the order of the list, and none
  for a peer whose owner flag is true. All of these calls carry the same message, and
  the entries of that message are exactly the keys and statuses of the requests of the
  batch whose evaluation succeeded.
\<close>

theorem updatePeers_sends_to_every_other_peer:
  "\<exists>msg. rpcs (updatePeers e us w) =
           rpcs w @ map (\<lambda>p. UpdatePeerGlobals p msg)
                      (filter (\<lambda>p. \<not> isOwner p) (GetPeerList e))
     \<and> set msg = {\<lparr>Key = HashKey (heap w a), Status = st\<rparr> | a st.
                    a \<in> snd ` set (DAList.impl_of us)
                    \<and> getRateLimit e ((heap w a)\<lparr>Behavior := 0, Hits := 0\<rparr>) = Inr st}"
proof -
  let ?as = "range_order (range_batch e) (map snd (DAList.impl_of us))"
  let ?msg = "concat (map (\<lambda>a. entry_of e (heap w a)) ?as)"
  have "set ?msg = {\<lparr>Key = HashKey (heap w a), Status = st\<rparr> | a st.
                    a \<in> snd ` set (DAList.impl_of us)
                    \<and> getRateLimit e ((heap w a)\<lparr>Behavior := 0, Hits := 0\<rparr>) = Inr st}"
    (is "_ = ?R")
  proof (intro set_eqI iffI)
    fix g assume "g \<in> set ?msg"
    then obtain a where a: "a \<in> snd ` set (DAList.impl_of us)" "g \<in> set (entry_of e (heap w a))"
      by (auto simp: set_range_order)
    from a(2) obtain st where "getRateLimit e ((heap w a)\<lparr>Behavior := 0, Hits := 0\<rparr>) = Inr st"
      "g = \<lparr>Key = HashKey (heap w a), Status = st\<rparr>"
      by (auto simp: in_entry_of)
    with a(1) show "g \<in> ?R" by blast
  next
    fix g assume "g \<in> ?R"
    then obtain a st where a: "a \<in> snd ` set (DAList.impl_of us)"
      "getRateLimit e ((heap w a)\<lparr>Behavior := 0, Hits := 0\<rparr>) = Inr st"
      "g = \<lparr>Key = HashKey (heap w a), Status = st\<rparr>"
      by blast
    then have "g \<in> set (entry_of e (heap w a))"
      by (simp add: in_entry_of)
    with a(1) show "g \<in> set ?msg"
      by (auto simp: set_range_order)
  qed
  then show ?thesis
    using updatePeers_parts(3) [of e us w] by blast
qed

text \<open>
  C8. One flush leaves the broadcast duration at the larger of the stored value and
  the duration of that flush: it is overwritten only when the new duration is strictly
  larger, and never decreases. Hence after any non-empty sequence of flushes that
  starts from a cleared counter the value is the maximum of the durations of those
  flushes. Flushes of the hit pipeline and reads without the clear flag leave it as it
  is; a read with the clear flag sets it to zero.
\<close>

theorem BroadcastDuration_is_high_water_mark:
  "BroadcastDuration (stats (updatePeers e us w)) =
     (if sint (BroadcastDuration (stats w)) < sint (duration_of (elapsed e))
      then duration_of (elapsed e) else BroadcastDuration (stats w))
   \<and> sint (BroadcastDuration (stats w)) \<le> sint (BroadcastDuration (stats (updatePeers e us w)))
   \<and> (BroadcastDuration (stats w) = 0 \<and> fl \<noteq> [] \<longrightarrow>
        sint (BroadcastDuration (stats (fold (\<lambda>(e, us). updatePeers e us) fl w))) =
          Max ((\<lambda>(e, us). sint (duration_of (elapsed e))) ` set fl))
   \<and> BroadcastDuration (stats (sendHits e hs w)) = BroadcastDuration (stats w)
   \<and> BroadcastDuration (stats (snd (Stats False w))) = BroadcastDuration (stats w)
   \<and> BroadcastDuration (stats (snd (Stats True w))) = 0"
proof (intro conjI impI)
  show "BroadcastDuration (stats (updatePeers e us w)) =
     (if sint (BroadcastDuration (stats w)) < sint (duration_of (elapsed e))
      then duration_of (elapsed e) else BroadcastDuration (stats w))"
    by (rule updatePeers_parts(5))
  show "sint (BroadcastDuration (stats w)) \<le> sint (BroadcastDuration (stats (updatePeers e us w)))"
    by (simp add: updatePeers_parts(5))
  show "BroadcastDuration (stats (sendHits e hs w)) = BroadcastDuration (stats w)"
    by (simp add: sendHits_def Let_def split_beta stats_fold_send_pair)
  show "BroadcastDuration (stats (snd (Stats False w))) = BroadcastDuration (stats w)"
    by (simp add: Stats_def)
  show "BroadcastDuration (stats (snd (Stats True w))) = 0"
    by (simp add: Stats_def)
next
  let ?d = "\<lambda>(e, us). sint (duration_of (elapsed e))"
  assume a: "BroadcastDuration (stats w) = 0 \<and> fl \<noteq> []"
  have nonneg: "\<And>x. x \<in> ?d ` set fl \<Longrightarrow> 0 \<le> x"
    by (auto simp: sint_duration_of)
  have ne: "?d ` set fl \<noteq> {}" using a by simp
  have "Max (insert 0 (?d ` set fl)) = max 0 (Max (?d ` set fl))"
    using ne by simp
  also have "\<dots> = Max (?d ` set fl)"
    using nonneg ne by (simp add: max_def Max_ge_iff) 
  finally show "sint (BroadcastDuration (stats (fold (\<lambda>(e, us). updatePeers e us) fl w))) =
          Max (?d ` set fl)"
    using a by (simp add: fold_updatePeers_duration)
qed

text \<open>
  C10. The flush writes through the pointers of the batch: afterwards every request
  object of the batch has hit count and behavior zero and is otherwise as before, and
  no other object has changed. The object a producer hands to \<open>QueueUpdate\<close> is
  itself entered into the batch, so once it has been received and the batch has been
  flushed (at once by the batch limit, or by the next timer event) the producer's
  object has hit count and behavior zero with its name, unique key and hash key
  unchanged.
\<close>

theorem updatePeers_clears_in_place:
  "heap (updatePeers e us w) =
     (\<lambda>a. if a \<in> snd ` set (DAList.impl_of us)
          then (heap w a)\<lparr>Behavior := 0, Hits := 0\<rparr> else heap w a)
   \<and> (case runBroadcasts_iter conf e1 (Recv r) (l, w) of (c1, l1, w1) \<Rightarrow>
        case runBroadcasts_iter conf e2 IntervalC (l1, w1) of (c2, l2, w2) \<Rightarrow>
          heap w2 r = (heap w r)\<lparr>Behavior := 0, Hits := 0\<rparr>
          \<and> Name (heap w2 r) = Name (heap w r)
          \<and> UniqueKey (heap w2 r) = UniqueKey (heap w r)
          \<and> HashKey (heap w2 r) = HashKey (heap w r))"
proof
  show "heap (updatePeers e us w) =
     (\<lambda>a. if a \<in> snd ` set (DAList.impl_of us)
          then (heap w a)\<lparr>Behavior := 0, Hits := 0\<rparr> else heap w a)"
    by (simp add: updatePeers_parts(1) cleared_def cong: if_cong)
next
  let ?us = "DAList.update (HashKey (heap w r)) r (updates l)"
  have m: "r \<in> snd ` set (DAList.impl_of ?us)"
    using in_update_self [of "HashKey (heap w r)" r "updates l"] by force
  have ne: "DAList.impl_of ?us \<noteq> []"
    using m by auto
  show "case runBroadcasts_iter conf e1 (Recv r) (l, w) of (c1, l1, w1) \<Rightarrow>
        case runBroadcasts_iter conf e2 IntervalC (l1, w1) of (c2, l2, w2) \<Rightarrow>
          heap w2 r = (heap w r)\<lparr>Behavior := 0, Hits := 0\<rparr>
          \<and> Name (heap w2 r) = Name (heap w r)
          \<and> UniqueKey (heap w2 r) = UniqueKey (heap w r)
          \<and> HashKey (heap w2 r) = HashKey (heap w r)"
    using m ne
    by (simp add: runBroadcasts_iter_def Let_def updatePeers_parts(1) cleared_def
        DAList.empty.rep_eq HashKey_def)
qed

end
